theory Spec2Isabelle
  imports Complex_Main "HOL-Library.Multiset"
begin

section \<open>The physics core of NewtonCradle.py\<close>

text \<open>
  The embedding follows \<^verbatim>\<open>src/NewtonCradle.py\<close>: the parameter object \<^verbatim>\<open>params\<close>,
  the class \<^verbatim>\<open>Ball\<close> with \<^verbatim>\<open>update\<close> and \<^verbatim>\<open>get_position\<close>, the functions
  \<^verbatim>\<open>initialize_simulation\<close> and \<^verbatim>\<open>resolve_collisions\<close>, and the physics part of the
  frame loop of \<^verbatim>\<open>main\<close>.

  Numbers: Python's \<^verbatim>\<open>float\<close> values are modelled by \<^typ>\<open>real\<close>, so every
  arithmetic operation is the exact one, with no rounding, no overflow and no NaN.
  \<^verbatim>\<open>params.num_balls\<close> is a Python \<^verbatim>\<open>int\<close> and is modelled by \<^typ>\<open>int\<close>.

  Objects: the global \<^verbatim>\<open>params\<close> is passed explicitly as a record. A list of
  \<^verbatim>\<open>Ball\<close> objects is modelled as a list of records, each position holding its own
  object, as \<^verbatim>\<open>initialize_simulation\<close> builds it; a method that mutates its object
  returns the new record.
\<close>

subsection \<open>Data\<close>

datatype py_error = ZeroDivisionError | IndexError | ValueError

record params =
  num_balls :: int
  ball_radius :: real
  ball_mass :: real
  gravity :: real
  rod_length :: real
  damping :: real
  initial_angle :: real
  time_step :: real

record ball =
  mass :: real
  angle :: real
  angular_velocity :: real
  angular_acceleration :: real
  pivot :: "real \<times> real"

definition WIDTH :: int where
  "WIDTH = 800"

definition HEIGHT :: int where
  "HEIGHT = 600"

text \<open>The defaults set by \<^verbatim>\<open>SimulationParams.__init__\<close>.\<close>

definition SimulationParams :: params where
  "SimulationParams =
     \<lparr>num_balls = 5, ball_radius = 20, ball_mass = 1, gravity = 50, rod_length = 200,
      damping = 1, initial_angle = pi / 4, time_step = 1 / 60\<rparr>"

text \<open>\<^verbatim>\<open>Ball.__init__(self, mass, initial_angle, pivot)\<close>.\<close>

definition Ball_init :: "real \<Rightarrow> real \<Rightarrow> real \<times> real \<Rightarrow> ball" where
  "Ball_init m initial_angle' pv =
     \<lparr>mass = m, angle = initial_angle', angular_velocity = 0,
      angular_acceleration = 0, pivot = pv\<rparr>"

subsection \<open>Pendulum dynamics\<close>

text \<open>
  \<^verbatim>\<open>Ball.update(self, dt)\<close>. The first statement divides by \<^verbatim>\<open>params.rod_length\<close>;
  Python raises \<^verbatim>\<open>ZeroDivisionError\<close> there when it is zero, before any field is
  assigned. Otherwise the four assignments run in the order of the source.
\<close>

definition update :: "params \<Rightarrow> real \<Rightarrow> ball \<Rightarrow> py_error + ball" where
  "update p dt b =
     (if rod_length p = 0 then Inl ZeroDivisionError
      else
        (let b1 = b\<lparr>angular_acceleration := - gravity p * sin (angle b) / rod_length p\<rparr>;
             b2 = b1\<lparr>angular_velocity := angular_velocity b1 + angular_acceleration b1 * dt\<rparr>;
             b3 = b2\<lparr>angular_velocity := angular_velocity b2 * damping p\<rparr>;
             b4 = b3\<lparr>angle := angle b3 + angular_velocity b3 * dt\<rparr>
         in Inr b4))"

text \<open>\<^verbatim>\<open>Ball.get_position(self)\<close>.\<close>

definition get_position :: "params \<Rightarrow> ball \<Rightarrow> real \<times> real" where
  "get_position p b =
     (let x = fst (pivot b) + rod_length p * sin (angle b);
          y = snd (pivot b) + rod_length p * cos (angle b)
      in (x, y))"

subsection \<open>Building the chain\<close>

text \<open>
  \<^verbatim>\<open>initialize_simulation()\<close>. The loop \<^verbatim>\<open>for i in range(params.num_balls)\<close> appends
  one ball per index; \<^verbatim>\<open>range\<close> of a number below 1 is empty. \<^verbatim>\<open>WIDTH // 2\<close> is integer
  division, \<^verbatim>\<open>(params.num_balls - 1) / 2\<close> is true division.
\<close>

definition initialize_simulation :: "params \<Rightarrow> ball list" where
  "initialize_simulation p =
     (let origin_x = WIDTH div 2;
          origin_y = 100;
          spacing = 2 * ball_radius p;
          start_x = real_of_int origin_x - (real_of_int (num_balls p - 1) / 2) * spacing
      in fold
           (\<lambda>i balls.
              let initial_angle' = (if int i = num_balls p - 1 then initial_angle p else 0);
                  pv = (start_x + real i * spacing, origin_y)
              in balls @ [Ball_init (ball_mass p) initial_angle' pv])
           [0 ..< nat (num_balls p)] [])"

subsection \<open>Collision resolution\<close>

definition tolerance :: real where
  "tolerance = 1"

definition max_iter :: nat where
  "max_iter = 10"

text \<open>
  The body of the inner loop of \<^verbatim>\<open>resolve_collisions\<close> for the pair \<open>(i - 1, i)\<close>. The
  state is the list of balls and the flag \<^verbatim>\<open>collision_found\<close>; the third component
  counts the swaps performed so far in the sweep. It is not a variable of the source: it
  is incremented exactly where the source swaps, and nothing reads it.
\<close>

definition sweep_body ::
    "params \<Rightarrow> nat \<Rightarrow> ball list \<times> bool \<times> nat \<Rightarrow> ball list \<times> bool \<times> nat" where
  "sweep_body p i st =
     (case st of (balls, collision_found, swaps) \<Rightarrow>
        (let ball_right = balls ! i;
             ball_left = balls ! (i - 1);
             pos_right = get_position p ball_right;
             pos_left = get_position p ball_left;
             dx = fst pos_right - fst pos_left
         in if dx < 2 * ball_radius p + tolerance then
              (let v_right = rod_length p * angular_velocity ball_right;
                   v_left = rod_length p * angular_velocity ball_left
               in if v_right - v_left < 0 then
                    (balls[i - 1 := ball_left\<lparr>angular_velocity := angular_velocity ball_right\<rparr>,
                           i := ball_right\<lparr>angular_velocity := angular_velocity ball_left\<rparr>],
                     True, Suc swaps)
                  else st)
            else st))"

text \<open>
  \<^verbatim>\<open>for i in range(n - 1, 0, -1)\<close>: the index runs from \<open>n - 1\<close> down to \<open>1\<close>; the loop
  is empty for \<open>n \<le> 1\<close>.
\<close>

fun sweep_loop ::
    "params \<Rightarrow> nat \<Rightarrow> ball list \<times> bool \<times> nat \<Rightarrow> ball list \<times> bool \<times> nat" where
  "sweep_loop p 0 st = st"
| "sweep_loop p (Suc k) st = sweep_loop p k (sweep_body p (Suc k) st)"

text \<open>One pass of the outer loop body up to the test of \<^verbatim>\<open>collision_found\<close>.\<close>

definition sweep :: "params \<Rightarrow> ball list \<Rightarrow> ball list \<times> bool \<times> nat" where
  "sweep p balls = sweep_loop p (length balls - 1) (balls, False, 0)"

text \<open>
  \<^verbatim>\<open>for _ in range(max_iter)\<close> with its \<^verbatim>\<open>break\<close>. The first argument is the number of
  iterations left. Beside the balls the function returns the trace of the call: one entry
  per sweep that was run, holding the number of swaps of that sweep.
\<close>

fun resolve_loop :: "params \<Rightarrow> nat \<Rightarrow> ball list \<Rightarrow> ball list \<times> nat list" where
  "resolve_loop p 0 balls = (balls, [])"
| "resolve_loop p (Suc k) balls =
     (case sweep p balls of (balls', collision_found, swaps) \<Rightarrow>
        if \<not> collision_found then (balls', [swaps])
        else (case resolve_loop p k balls' of (balls'', tr) \<Rightarrow> (balls'', swaps # tr)))"

definition resolve_collisions :: "params \<Rightarrow> ball list \<Rightarrow> ball list" where
  "resolve_collisions p balls = fst (resolve_loop p max_iter balls)"

definition resolve_trace :: "params \<Rightarrow> ball list \<Rightarrow> nat list" where
  "resolve_trace p balls = snd (resolve_loop p max_iter balls)"

subsection \<open>The frame loop\<close>

text \<open>
  \<^verbatim>\<open>for ball in balls: ball.update(dt)\<close> as in \<^verbatim>\<open>main\<close>: the balls are updated in list
  order, and the first exception ends the loop.
\<close>

fun update_all :: "params \<Rightarrow> real \<Rightarrow> ball list \<Rightarrow> py_error + ball list" where
  "update_all p dt [] = Inr []"
| "update_all p dt (b # bs) =
     (case update p dt b of
        Inl e \<Rightarrow> Inl e
      | Inr b' \<Rightarrow> (case update_all p dt bs of Inl e \<Rightarrow> Inl e | Inr bs' \<Rightarrow> Inr (b' # bs')))"

text \<open>
  A call made on a chain: \<^verbatim>\<open>balls[i].update(dt)\<close>, the update loop of \<^verbatim>\<open>main\<close>, or
  \<^verbatim>\<open>resolve_collisions(balls)\<close>. Indexing a list out of range raises \<^verbatim>\<open>IndexError\<close>.
\<close>

datatype call = Integrate nat real | IntegrateAll real | Resolve

definition do_call :: "params \<Rightarrow> call \<Rightarrow> ball list \<Rightarrow> py_error + ball list" where
  "do_call p c balls =
     (case c of
        Integrate i dt \<Rightarrow>
          (if i < length balls then
             (case update p dt (balls ! i) of
                Inl e \<Rightarrow> Inl e
              | Inr b' \<Rightarrow> Inr (balls[i := b']))
           else Inl IndexError)
      | IntegrateAll dt \<Rightarrow> update_all p dt balls
      | Resolve \<Rightarrow> Inr (resolve_collisions p balls))"

fun run :: "params \<Rightarrow> call list \<Rightarrow> ball list \<Rightarrow> py_error + ball list" where
  "run p [] balls = Inr balls"
| "run p (c # cs) balls =
     (case do_call p c balls of Inl e \<Rightarrow> Inl e | Inr balls' \<Rightarrow> run p cs balls')"

text \<open>The pair \<open>(i - 1, i)\<close> is in contact and closing: the condition under which the
  source swaps.\<close>

definition qualifies :: "params \<Rightarrow> ball list \<Rightarrow> nat \<Rightarrow> bool" where
  "qualifies p balls i =
     (fst (get_position p (balls ! i)) - fst (get_position p (balls ! (i - 1)))
        < 2 * ball_radius p + tolerance
      \<and> rod_length p * angular_velocity (balls ! i)
          - rod_length p * angular_velocity (balls ! (i - 1)) < 0)"

text \<open>
  What a trace of at most \<open>n\<close> sweeps looks like: it is not longer than \<open>n\<close>, it is not
  empty unless \<open>n = 0\<close>, a sweep without a swap is the last one, and a sweep with a swap
  is followed by another sweep unless it was sweep number \<open>n\<close>.
\<close>

definition trace_ok :: "nat \<Rightarrow> nat list \<Rightarrow> bool" where
  "trace_ok n tr =
     (length tr \<le> n \<and> (0 < n \<longrightarrow> tr \<noteq> [])
      \<and> (\<forall>k < length tr.
            (tr ! k = 0 \<longrightarrow> Suc k = length tr)
            \<and> (0 < tr ! k \<longrightarrow> Suc k < length tr \<or> Suc k = n)))"

text \<open>Two balls agree in everything but mass and the transient acceleration.\<close>

definition same_motion :: "ball \<Rightarrow> ball \<Rightarrow> bool" where
  "same_motion b b' =
     (angle b = angle b' \<and> angular_velocity b = angular_velocity b' \<and> pivot b = pivot b')"

subsection \<open>Repeated integration and mechanical energy\<close>






section \<open>Properties\<close>

subsection \<open>Building the chain\<close>





text \<open>
  C10: with \<^verbatim>\<open>num_balls = 0\<close> the function \<^verbatim>\<open>initialize_simulation\<close> has no check
  that rejects the input; its loop body never runs and it returns the empty list.
\<close>

theorem build_zero_balls_empty:
  "num_balls p = 0 \<Longrightarrow> initialize_simulation p = []"
  by (simp add: initialize_simulation_def)

theorem build_zero_balls_empty_witness:
  "num_balls (SimulationParams\<lparr>num_balls := 0\<rparr>) = 0
   \<and> initialize_simulation (SimulationParams\<lparr>num_balls := 0\<rparr>) = []"
  using build_zero_balls_empty [of "SimulationParams\<lparr>num_balls := 0\<rparr>"] by simp



subsection \<open>Pendulum dynamics\<close>

text \<open>
  C2: when the rod length is not zero, one call of \<^verbatim>\<open>update\<close> computes the
  acceleration \<open>a = -(gravity / rod_length) * sin angle\<close>, sets the angular velocity to
  \<open>(velocity + a * dt) * damping\<close>, and then advances the angle by the new velocity times
  \<open>dt\<close>; mass and pivot keep their values. This holds for every \<open>dt\<close>, in particular
  for every positive one.
\<close>

theorem update_semi_implicit_euler:
  "rod_length p \<noteq> 0 \<Longrightarrow>
   update p dt b =
     Inr (b\<lparr>angular_acceleration := - (gravity p / rod_length p) * sin (angle b),
            angular_velocity :=
              (angular_velocity b + (- (gravity p / rod_length p) * sin (angle b)) * dt) * damping p,
            angle :=
              angle b
              + ((angular_velocity b + (- (gravity p / rod_length p) * sin (angle b)) * dt)
                  * damping p) * dt\<rparr>)"
  by (simp add: update_def Let_def)

theorem update_semi_implicit_euler_witness:
  "rod_length SimulationParams \<noteq> 0
   \<and> update SimulationParams (1 / 60) (Ball_init 1 0 (400, 100))
       = Inr (Ball_init 1 0 (400, 100))"
  using update_semi_implicit_euler [of SimulationParams "1 / 60" "Ball_init 1 0 (400, 100)"]
  by (simp add: SimulationParams_def Ball_init_def)




subsection \<open>Collision resolution: what is left unchanged\<close>

text \<open>
  The only field that \<^verbatim>\<open>resolve_collisions\<close> assigns is \<^verbatim>\<open>angular_velocity\<close>. Any
  function of a ball that does not depend on that field has the same values along the list
  after the inner loop body, a sweep, and the whole call.
\<close>

lemma sweep_body_length:
  "length (fst (sweep_body p i (bs, c, s))) = length bs"
  by (simp add: sweep_body_def Let_def)

lemma sweep_body_frame:
  assumes f: "\<And>b v. f (b\<lparr>angular_velocity := v\<rparr>) = f b"
  shows "map f (fst (sweep_body p i (bs, c, s))) = map f bs"
proof (rule nth_equalityI)
  show "length (map f (fst (sweep_body p i (bs, c, s)))) = length (map f bs)"
    by (simp add: sweep_body_length)
next
  fix j assume "j < length (map f (fst (sweep_body p i (bs, c, s))))"
  then have j: "j < length bs" by (simp add: sweep_body_length)
  then show "map f (fst (sweep_body p i (bs, c, s))) ! j = map f bs ! j"
    by (cases "j = i"; cases "j = i - 1") (simp_all add: sweep_body_def Let_def f)
qed

lemma sweep_loop_length:
  "length (fst (sweep_loop p k st)) = length (fst st)"
proof (induction k arbitrary: st)
  case 0
  show ?case by simp
next
  case (Suc k)
  obtain bs c s where st: "st = (bs, c, s)" by (cases st)
  show ?case by (simp add: Suc.IH) (simp add: st sweep_body_length)
qed

lemma sweep_loop_frame:
  assumes f: "\<And>b v. f (b\<lparr>angular_velocity := v\<rparr>) = f b"
  shows "map f (fst (sweep_loop p k st)) = map f (fst st)"
proof (induction k arbitrary: st)
  case 0
  show ?case by simp
next
  case (Suc k)
  obtain bs c s where st: "st = (bs, c, s)" by (cases st)
  show ?case by (simp add: Suc.IH) (simp add: st sweep_body_frame [OF f])
qed

lemma sweep_frame:
  assumes f: "\<And>b v. f (b\<lparr>angular_velocity := v\<rparr>) = f b"
  shows "map f (fst (sweep p bs)) = map f bs"
  by (simp add: sweep_def sweep_loop_frame [OF f])

lemma resolve_loop_frame:
  assumes f: "\<And>b v. f (b\<lparr>angular_velocity := v\<rparr>) = f b"
  shows "map f (fst (resolve_loop p n bs)) = map f bs"
proof (induction n arbitrary: bs)
  case 0
  show ?case by simp
next
  case (Suc n)
  obtain bs' c s where sw: "sweep p bs = (bs', c, s)" by (cases "sweep p bs")
  have bs': "map f bs' = map f bs" using sweep_frame [OF f, of p bs] by (simp add: sw)
  show ?case
  proof (cases c)
    case False
    then show ?thesis by (simp add: sw bs')
  next
    case True
    obtain bs'' tr where r: "resolve_loop p n bs' = (bs'', tr)" by (cases "resolve_loop p n bs'")
    have "map f bs'' = map f bs'" using Suc.IH [of bs'] by (simp add: r)
    with True show ?thesis by (simp add: sw r bs')
  qed
qed

lemma resolve_collisions_frame:
  assumes f: "\<And>b v. f (b\<lparr>angular_velocity := v\<rparr>) = f b"
  shows "map f (resolve_collisions p bs) = map f bs"
  by (simp add: resolve_collisions_def resolve_loop_frame [OF f])

lemma resolve_collisions_length:
  "length (resolve_collisions p bs) = length bs"
  using resolve_collisions_frame [of mass p bs] by (auto dest: map_eq_imp_length_eq)

lemma sweep_pair_untouched:
  "\<not> qualifies p [l, r] 1 \<Longrightarrow> sweep p [l, r] = ([l, r], False, 0)"
  by (auto simp add: sweep_def sweep_body_def qualifies_def Let_def)

lemma resolve_pair_untouched:
  "\<not> qualifies p [l, r] 1 \<Longrightarrow> resolve_loop p (Suc n) [l, r] = ([l, r], [0])"
  by (simp add: sweep_pair_untouched)

text \<open>
  C4: \<^verbatim>\<open>resolve_collisions\<close> never changes the angle or the pivot of a ball (nor its
  mass, nor the length of the list). For a list of two balls whose horizontal gap exceeds
  \<open>2 * ball_radius + tolerance\<close>, or which are in contact with
  \<open>v_right - v_left \<ge> 0\<close>, the call returns both balls as they were, angular velocities
  included.
\<close>

theorem resolve_frame:
  "map angle (resolve_collisions p balls) = map angle balls
   \<and> map pivot (resolve_collisions p balls) = map pivot balls
   \<and> map mass (resolve_collisions p balls) = map mass balls
   \<and> length (resolve_collisions p balls) = length balls
   \<and> (fst (get_position p r) - fst (get_position p l) > 2 * ball_radius p + tolerance
        \<or> (fst (get_position p r) - fst (get_position p l) < 2 * ball_radius p + tolerance
            \<and> rod_length p * angular_velocity r - rod_length p * angular_velocity l \<ge> 0)
      \<longrightarrow> resolve_collisions p [l, r] = [l, r])"
proof -
  have "resolve_collisions p [l, r] = [l, r]" if "\<not> qualifies p [l, r] 1"
    using resolve_pair_untouched [OF that, of 9]
    by (simp add: resolve_collisions_def max_iter_def)
  moreover have "\<not> qualifies p [l, r] 1"
    if "fst (get_position p r) - fst (get_position p l) > 2 * ball_radius p + tolerance
        \<or> (fst (get_position p r) - fst (get_position p l) < 2 * ball_radius p + tolerance
            \<and> rod_length p * angular_velocity r - rod_length p * angular_velocity l \<ge> 0)"
    using that by (auto simp add: qualifies_def)
  ultimately show ?thesis
    by (simp add: resolve_collisions_frame resolve_collisions_length)
qed

theorem resolve_frame_witness:
  "fst (get_position SimulationParams
          ((Ball_init 1 0 (200, 100))\<lparr>angular_velocity := 2 / 10\<rparr>))
     - fst (get_position SimulationParams
          ((Ball_init 1 0 (100, 100))\<lparr>angular_velocity := 1 / 10\<rparr>))
     > 2 * ball_radius SimulationParams + tolerance
   \<and> resolve_collisions SimulationParams
         [(Ball_init 1 0 (100, 100))\<lparr>angular_velocity := 1 / 10\<rparr>,
          (Ball_init 1 0 (200, 100))\<lparr>angular_velocity := 2 / 10\<rparr>]
       = [(Ball_init 1 0 (100, 100))\<lparr>angular_velocity := 1 / 10\<rparr>,
          (Ball_init 1 0 (200, 100))\<lparr>angular_velocity := 2 / 10\<rparr>]"
proof -
  have gap:
    "fst (get_position SimulationParams
          ((Ball_init 1 0 (200, 100))\<lparr>angular_velocity := 2 / 10\<rparr>))
     - fst (get_position SimulationParams
          ((Ball_init 1 0 (100, 100))\<lparr>angular_velocity := 1 / 10\<rparr>))
     > 2 * ball_radius SimulationParams + tolerance"
    by (simp add: get_position_def SimulationParams_def Ball_init_def tolerance_def)
  with resolve_frame [of SimulationParams "[]"
      "(Ball_init 1 0 (200, 100))\<lparr>angular_velocity := 2 / 10\<rparr>"
      "(Ball_init 1 0 (100, 100))\<lparr>angular_velocity := 1 / 10\<rparr>"]
  show ?thesis by blast
qed

subsection \<open>Collision resolution: the angular velocities are permuted\<close>

lemma swap_velocities_mset:
  assumes "0 < i" "i < length bs"
  shows "mset (map angular_velocity
            (bs[i - 1 := (bs ! (i - 1))\<lparr>angular_velocity := angular_velocity (bs ! i)\<rparr>,
                i := (bs ! i)\<lparr>angular_velocity := angular_velocity (bs ! (i - 1))\<rparr>]))
         = mset (map angular_velocity bs)"
proof -
  let ?vs = "map angular_velocity bs"
  have "map angular_velocity
            (bs[i - 1 := (bs ! (i - 1))\<lparr>angular_velocity := angular_velocity (bs ! i)\<rparr>,
                i := (bs ! i)\<lparr>angular_velocity := angular_velocity (bs ! (i - 1))\<rparr>])
        = ?vs[i - 1 := ?vs ! i, i := ?vs ! (i - 1)]"
    using assms by (simp add: map_update)
  also have "mset \<dots> = mset ?vs"
    using assms by (intro mset_swap) simp_all
  finally show ?thesis .
qed

lemma sweep_body_mset:
  "0 < i \<Longrightarrow> i < length bs \<Longrightarrow>
   mset (map angular_velocity (fst (sweep_body p i (bs, c, s)))) = mset (map angular_velocity bs)"
  using swap_velocities_mset [of i bs] by (simp add: sweep_body_def Let_def)

lemma sweep_loop_mset:
  "k < length (fst st) \<Longrightarrow>
   mset (map angular_velocity (fst (sweep_loop p k st))) = mset (map angular_velocity (fst st))"
proof (induction k arbitrary: st)
  case 0
  show ?case by simp
next
  case (Suc k)
  obtain bs c s where st: "st = (bs, c, s)" by (cases st)
  from Suc.prems have k: "Suc k < length bs" by (simp add: st)
  have "k < length (fst (sweep_body p (Suc k) st))"
    using k by (simp add: st sweep_body_length)
  from Suc.IH [OF this] show ?case
    using sweep_body_mset [of "Suc k" bs p c s] k by (simp add: st)
qed

lemma sweep_mset:
  "mset (map angular_velocity (fst (sweep p bs))) = mset (map angular_velocity bs)"
proof (cases bs)
  case Nil
  then show ?thesis by (simp add: sweep_def)
next
  case (Cons b bs')
  then show ?thesis using sweep_loop_mset [of "length bs - 1" "(bs, False, 0)" p]
    by (simp add: sweep_def)
qed

lemma resolve_loop_mset:
  "mset (map angular_velocity (fst (resolve_loop p n bs))) = mset (map angular_velocity bs)"
proof (induction n arbitrary: bs)
  case 0
  show ?case by simp
next
  case (Suc n)
  obtain bs' c s where sw: "sweep p bs = (bs', c, s)" by (cases "sweep p bs")
  have bs': "mset (map angular_velocity bs') = mset (map angular_velocity bs)"
    using sweep_mset [of p bs] by (simp add: sw)
  show ?case
  proof (cases c)
    case False
    then show ?thesis using bs' by (simp add: sw)
  next
    case True
    obtain bs'' tr where r: "resolve_loop p n bs' = (bs'', tr)" by (cases "resolve_loop p n bs'")
    have "mset (map angular_velocity bs'') = mset (map angular_velocity bs')"
      using Suc.IH [of bs'] by (simp add: r)
    with True bs' show ?thesis by (simp add: sw r)
  qed
qed

text \<open>
  C6: for every list of balls, \<^verbatim>\<open>resolve_collisions\<close> only permutes the angular
  velocities: their multiset after the call is the multiset before it, and so is their sum.
\<close>

theorem resolve_permutes_velocities:
  "mset (map angular_velocity (resolve_collisions p balls)) = mset (map angular_velocity balls)
   \<and> sum_list (map angular_velocity (resolve_collisions p balls))
       = sum_list (map angular_velocity balls)"
proof -
  have m: "mset (map angular_velocity (resolve_collisions p balls))
           = mset (map angular_velocity balls)"
    unfolding resolve_collisions_def by (rule resolve_loop_mset)
  have "sum_mset (mset (map angular_velocity (resolve_collisions p balls)))
        = sum_mset (mset (map angular_velocity balls))"
    by (simp only: m)
  then have "sum_list (map angular_velocity (resolve_collisions p balls))
        = sum_list (map angular_velocity balls)"
    by (simp only: sum_mset_sum_list)
  with m show ?thesis by (rule conjI)
qed

subsection \<open>Collision resolution: a pair in contact and closing\<close>

text \<open>
  C1: for a list of two balls whose horizontal gap is at most \<open>2 * ball_radius\<close> and
  whose approximate contact velocities satisfy \<open>v_right - v_left < 0\<close>, one call of
  \<^verbatim>\<open>resolve_collisions\<close> exchanges the two angular velocities and changes nothing else:
  the first sweep swaps once, the second sweep finds nothing to swap and ends the call.
  The masses play no part, so the statement holds for equal masses in particular.
\<close>

theorem resolve_pair_swap:
  assumes gap: "fst (get_position p r) - fst (get_position p l) \<le> 2 * ball_radius p"
    and closing: "rod_length p * angular_velocity r - rod_length p * angular_velocity l < 0"
  shows "resolve_collisions p [l, r]
           = [l\<lparr>angular_velocity := angular_velocity r\<rparr>,
              r\<lparr>angular_velocity := angular_velocity l\<rparr>]
         \<and> resolve_trace p [l, r] = [1, 0]"
proof -
  let ?l = "l\<lparr>angular_velocity := angular_velocity r\<rparr>"
  let ?r = "r\<lparr>angular_velocity := angular_velocity l\<rparr>"
  have s1: "sweep p [l, r] = ([?l, ?r], True, 1)"
    using gap closing by (simp add: sweep_def sweep_body_def Let_def tolerance_def)
  have "\<not> qualifies p [?l, ?r] 1"
    using closing by (simp add: qualifies_def)
  then have s2: "sweep p [?l, ?r] = ([?l, ?r], False, 0)"
    by (rule sweep_pair_untouched)
  have "resolve_loop p max_iter [l, r] = ([?l, ?r], [1, 0])"
    by (simp add: max_iter_def eval_nat_numeral s1 s2)
  then show ?thesis by (simp add: resolve_collisions_def resolve_trace_def)
qed

theorem resolve_pair_swap_witness:
  "fst (get_position SimulationParams
          ((Ball_init 1 0 (140, 100))\<lparr>angular_velocity := - 1 / 10\<rparr>))
     - fst (get_position SimulationParams (Ball_init 1 0 (100, 100)))
     \<le> 2 * ball_radius SimulationParams
   \<and> rod_length SimulationParams
         * angular_velocity ((Ball_init 1 0 (140, 100))\<lparr>angular_velocity := - 1 / 10\<rparr>)
       - rod_length SimulationParams * angular_velocity (Ball_init 1 0 (100, 100)) < 0
   \<and> resolve_collisions SimulationParams
         [Ball_init 1 0 (100, 100),
          (Ball_init 1 0 (140, 100))\<lparr>angular_velocity := - 1 / 10\<rparr>]
       = [(Ball_init 1 0 (100, 100))\<lparr>angular_velocity := - 1 / 10\<rparr>,
          Ball_init 1 0 (140, 100)]"
proof -
  have gap:
    "fst (get_position SimulationParams
          ((Ball_init 1 0 (140, 100))\<lparr>angular_velocity := - 1 / 10\<rparr>))
     - fst (get_position SimulationParams (Ball_init 1 0 (100, 100)))
     \<le> 2 * ball_radius SimulationParams"
    by (simp add: get_position_def SimulationParams_def Ball_init_def)
  have closing:
    "rod_length SimulationParams
         * angular_velocity ((Ball_init 1 0 (140, 100))\<lparr>angular_velocity := - 1 / 10\<rparr>)
       - rod_length SimulationParams * angular_velocity (Ball_init 1 0 (100, 100)) < 0"
    by (simp add: SimulationParams_def Ball_init_def)
  from resolve_pair_swap [OF gap closing] gap closing show ?thesis
    by (simp add: Ball_init_def)
qed

subsection \<open>Collision resolution: the number of sweeps\<close>

text \<open>
  The flag \<^verbatim>\<open>collision_found\<close> is set exactly when the sweep has swapped, and a sweep
  over a list in which no adjacent pair qualifies changes nothing.
\<close>

lemma sweep_body_flag:
  "c = (0 < s) \<Longrightarrow>
   fst (snd (sweep_body p i (bs, c, s))) = (0 < snd (snd (sweep_body p i (bs, c, s))))"
  by (simp add: sweep_body_def Let_def)

lemma sweep_loop_flag:
  "fst (snd st) = (0 < snd (snd st)) \<Longrightarrow>
   fst (snd (sweep_loop p k st)) = (0 < snd (snd (sweep_loop p k st)))"
proof (induction k arbitrary: st)
  case 0
  then show ?case by simp
next
  case (Suc k)
  obtain bs c s where st: "st = (bs, c, s)" by (cases st)
  from Suc.prems have "c = (0 < s)" by (simp add: st)
  then have "fst (snd (sweep_body p (Suc k) st)) = (0 < snd (snd (sweep_body p (Suc k) st)))"
    unfolding st by (rule sweep_body_flag)
  from Suc.IH [OF this] show ?case by simp
qed

lemma sweep_flag:
  "sweep p bs = (bs', c, s) \<Longrightarrow> c = (0 < s)"
  using sweep_loop_flag [of "(bs, False, 0)" p "length bs - 1"] by (simp add: sweep_def)

lemma sweep_body_not_qualifies:
  "\<not> qualifies p bs i \<Longrightarrow> sweep_body p i (bs, c, s) = (bs, c, s)"
  by (auto simp add: sweep_body_def qualifies_def Let_def)

lemma sweep_loop_not_qualifies:
  "(\<forall>i. 0 < i \<and> i \<le> k \<longrightarrow> \<not> qualifies p bs i) \<Longrightarrow>
   sweep_loop p k (bs, c, s) = (bs, c, s)"
  by (induction k) (simp_all add: sweep_body_not_qualifies)

lemma sweep_not_qualifies:
  "(\<forall>i. 0 < i \<and> i < length bs \<longrightarrow> \<not> qualifies p bs i) \<Longrightarrow>
   sweep p bs = (bs, False, 0)"
  unfolding sweep_def by (rule sweep_loop_not_qualifies) auto

lemma resolve_loop_not_qualifies:
  "(\<forall>i. 0 < i \<and> i < length bs \<longrightarrow> \<not> qualifies p bs i) \<Longrightarrow>
   resolve_loop p (Suc n) bs = (bs, [0])"
  by (simp add: sweep_not_qualifies)

lemma trace_ok_Nil: "trace_ok 0 []"
  by (simp add: trace_ok_def)

lemma trace_ok_single: "trace_ok (Suc n) [0]"
  by (simp add: trace_ok_def)

lemma trace_ok_Cons:
  assumes s: "0 < s" and tr: "trace_ok n tr"
  shows "trace_ok (Suc n) (s # tr)"
proof -
  from tr have len: "length tr \<le> n" and ne: "0 < n \<Longrightarrow> tr \<noteq> []"
    and zero: "\<And>k. k < length tr \<Longrightarrow> tr ! k = 0 \<Longrightarrow> Suc k = length tr"
    and pos: "\<And>k. k < length tr \<Longrightarrow> 0 < tr ! k \<Longrightarrow> Suc k < length tr \<or> Suc k = n"
    unfolding trace_ok_def by blast+
  have "((s # tr) ! k = 0 \<longrightarrow> Suc k = length (s # tr))
        \<and> (0 < (s # tr) ! k \<longrightarrow> Suc k < length (s # tr) \<or> Suc k = Suc n)"
    if k: "k < length (s # tr)" for k
  proof (cases k)
    case 0
    have "tr \<noteq> [] \<or> n = 0" using ne by blast
    then have "Suc 0 < length (s # tr) \<or> Suc 0 = Suc n" by (cases tr) simp_all
    with s 0 show ?thesis by simp
  next
    case (Suc j)
    with k have j: "j < length tr" by simp
    have "tr ! j = 0 \<longrightarrow> Suc j = length tr" using zero [OF j] by blast
    moreover have "0 < tr ! j \<longrightarrow> Suc j < length tr \<or> Suc j = n" using pos [OF j] by blast
    ultimately show ?thesis unfolding Suc by simp
  qed
  then have "\<forall>k < length (s # tr).
      ((s # tr) ! k = 0 \<longrightarrow> Suc k = length (s # tr))
      \<and> (0 < (s # tr) ! k \<longrightarrow> Suc k < length (s # tr) \<or> Suc k = Suc n)"
    by blast
  moreover have "length (s # tr) \<le> Suc n" using len by simp
  moreover have "0 < Suc n \<longrightarrow> s # tr \<noteq> []" by simp
  ultimately show ?thesis unfolding trace_ok_def by blast
qed

lemma resolve_loop_trace:
  "trace_ok n (snd (resolve_loop p n bs))"
proof (induction n arbitrary: bs)
  case 0
  show ?case by (simp add: trace_ok_Nil)
next
  case (Suc n)
  obtain bs' c s where sw: "sweep p bs = (bs', c, s)" by (cases "sweep p bs")
  have c: "c = (0 < s)" using sw by (rule sweep_flag)
  show ?case
  proof (cases c)
    case False
    with c have "snd (resolve_loop p (Suc n) bs) = [0]" by (simp add: sw)
    then show ?thesis by (simp only: trace_ok_single)
  next
    case True
    obtain bs'' tr' where r: "resolve_loop p n bs' = (bs'', tr')"
      by (cases "resolve_loop p n bs'")
    from True have tr: "snd (resolve_loop p (Suc n) bs) = s # tr'" by (simp add: sw r)
    from True c have s: "0 < s" by simp
    from Suc.IH [of bs'] have "trace_ok n tr'" by (simp add: r)
    with s have "trace_ok (Suc n) (s # tr')" by (rule trace_ok_Cons)
    then show ?thesis by (simp only: tr)
  qed
qed

text \<open>
  C5: \<^verbatim>\<open>resolve_collisions\<close> is a total function that runs at least one and at most
  \<^verbatim>\<open>max_iter\<close> = 10 sweeps. A sweep without a swap is the last sweep of the call; a sweep
  with a swap is followed by another sweep unless it was the tenth. When no adjacent pair
  qualifies for a swap, the call runs one sweep, swaps nothing and returns the list as it
  was.
\<close>

theorem resolve_sweeps_bounded:
  "max_iter = 10
   \<and> 1 \<le> length (resolve_trace p balls)
   \<and> length (resolve_trace p balls) \<le> max_iter
   \<and> (\<forall>k < length (resolve_trace p balls).
         (resolve_trace p balls ! k = 0 \<longrightarrow> Suc k = length (resolve_trace p balls))
         \<and> (0 < resolve_trace p balls ! k \<longrightarrow>
              Suc k < length (resolve_trace p balls) \<or> Suc k = max_iter))
   \<and> ((\<forall>i. 0 < i \<and> i < length balls \<longrightarrow> \<not> qualifies p balls i) \<longrightarrow>
        resolve_trace p balls = [0] \<and> resolve_collisions p balls = balls)"
proof -
  have "trace_ok max_iter (resolve_trace p balls)"
    unfolding resolve_trace_def by (rule resolve_loop_trace)
  then have t: "resolve_trace p balls \<noteq> []" "length (resolve_trace p balls) \<le> max_iter"
    "\<forall>k < length (resolve_trace p balls).
         (resolve_trace p balls ! k = 0 \<longrightarrow> Suc k = length (resolve_trace p balls))
         \<and> (0 < resolve_trace p balls ! k \<longrightarrow>
              Suc k < length (resolve_trace p balls) \<or> Suc k = max_iter)"
    unfolding trace_ok_def by (simp_all add: max_iter_def)
  from t(1) have l: "1 \<le> length (resolve_trace p balls)"
    by (cases "resolve_trace p balls") simp_all
  have q: "resolve_trace p balls = [0] \<and> resolve_collisions p balls = balls"
    if "\<forall>i. 0 < i \<and> i < length balls \<longrightarrow> \<not> qualifies p balls i"
    using resolve_loop_not_qualifies [OF that, of 9]
    by (simp add: resolve_trace_def resolve_collisions_def max_iter_def)
  have m: "max_iter = 10" by (simp add: max_iter_def)
  from m l t(2,3) q show ?thesis by blast
qed

theorem resolve_sweeps_bounded_witness:
  "\<not> qualifies SimulationParams [Ball_init 1 0 (100, 100), Ball_init 1 0 (140, 100)] 1
   \<and> resolve_trace SimulationParams [Ball_init 1 0 (100, 100), Ball_init 1 0 (140, 100)] = [0]
   \<and> resolve_collisions SimulationParams [Ball_init 1 0 (100, 100), Ball_init 1 0 (140, 100)]
       = [Ball_init 1 0 (100, 100), Ball_init 1 0 (140, 100)]
   \<and> length (resolve_trace SimulationParams [Ball_init 1 0 (100, 100), Ball_init 1 0 (140, 100)])
       \<le> 10"
proof -
  let ?bs = "[Ball_init 1 0 (100, 100), Ball_init 1 0 (140, 100)]"
  have one: "\<not> qualifies SimulationParams ?bs 1"
    by (simp add: qualifies_def Ball_init_def)
  have h: "\<forall>i. 0 < i \<and> i < length ?bs \<longrightarrow> \<not> qualifies SimulationParams ?bs i"
  proof (intro allI impI)
    fix i :: nat
    assume "0 < i \<and> i < length ?bs"
    then have "i = 1" by simp
    with one show "\<not> qualifies SimulationParams ?bs i" by blast
  qed
  from resolve_sweeps_bounded [of SimulationParams ?bs] h
  have r: "resolve_trace SimulationParams ?bs = [0]"
    "resolve_collisions SimulationParams ?bs = ?bs"
    by blast+
  from r(1) have "length (resolve_trace SimulationParams ?bs) \<le> 10" by simp
  with one r show ?thesis by blast
qed

subsection \<open>The motion does not depend on the masses\<close>

text \<open>
  Neither \<^verbatim>\<open>update\<close> nor \<^verbatim>\<open>resolve_collisions\<close> reads \<^verbatim>\<open>mass\<close>, and \<^verbatim>\<open>update\<close>
  overwrites \<^verbatim>\<open>angular_acceleration\<close> before it reads it. So two lists of balls that agree
  position by position in angle, angular velocity and pivot stay so under every call, and
  fail together when a call raises.
\<close>

lemma same_motion_position:
  "same_motion b b' \<Longrightarrow> get_position p b = get_position p b'"
  by (simp add: same_motion_def get_position_def)

lemma same_motion_swap:
  "same_motion l l' \<Longrightarrow> same_motion r r' \<Longrightarrow>
   same_motion (l\<lparr>angular_velocity := angular_velocity r\<rparr>)
               (l'\<lparr>angular_velocity := angular_velocity r'\<rparr>)"
  by (simp add: same_motion_def)

lemma update_same_motion:
  "same_motion b b' \<Longrightarrow> rel_sum (=) same_motion (update p dt b) (update p dt b')"
  by (simp add: update_def Let_def same_motion_def)

lemma sweep_body_same_motion:
  assumes bs: "list_all2 same_motion bs bs'" and i: "0 < i" "i < length bs"
  shows "list_all2 same_motion (fst (sweep_body p i (bs, c, s))) (fst (sweep_body p i (bs', c, s)))
         \<and> snd (sweep_body p i (bs, c, s)) = snd (sweep_body p i (bs', c, s))"
proof -
  from bs i have r: "same_motion (bs ! i) (bs' ! i)"
    by (simp add: list_all2_nthD)
  from bs i have l: "same_motion (bs ! (i - 1)) (bs' ! (i - 1))"
    by (simp add: list_all2_nthD)
  have pr: "get_position p (bs ! i) = get_position p (bs' ! i)"
    using r by (rule same_motion_position)
  have pl: "get_position p (bs ! (i - 1)) = get_position p (bs' ! (i - 1))"
    using l by (rule same_motion_position)
  have vr: "angular_velocity (bs ! i) = angular_velocity (bs' ! i)"
    using r by (simp add: same_motion_def)
  have vl: "angular_velocity (bs ! (i - 1)) = angular_velocity (bs' ! (i - 1))"
    using l by (simp add: same_motion_def)
  have sw: "list_all2 same_motion
      (bs[i - 1 := (bs ! (i - 1))\<lparr>angular_velocity := angular_velocity (bs ! i)\<rparr>,
          i := (bs ! i)\<lparr>angular_velocity := angular_velocity (bs ! (i - 1))\<rparr>])
      (bs'[i - 1 := (bs' ! (i - 1))\<lparr>angular_velocity := angular_velocity (bs' ! i)\<rparr>,
          i := (bs' ! i)\<lparr>angular_velocity := angular_velocity (bs' ! (i - 1))\<rparr>])"
    by (intro list_all2_update_cong bs same_motion_swap l r)
  have pl': "get_position p (bs ! (i - Suc 0)) = get_position p (bs' ! (i - Suc 0))"
    using pl by simp
  have vl': "angular_velocity (bs ! (i - Suc 0)) = angular_velocity (bs' ! (i - Suc 0))"
    using vl by simp
  show ?thesis
    using sw bs by (simp add: sweep_body_def Let_def pr pl' vr vl')
qed

lemma sweep_loop_same_motion:
  "list_all2 same_motion bs bs' \<Longrightarrow> k < length bs \<Longrightarrow>
   list_all2 same_motion (fst (sweep_loop p k (bs, c, s))) (fst (sweep_loop p k (bs', c, s)))
   \<and> snd (sweep_loop p k (bs, c, s)) = snd (sweep_loop p k (bs', c, s))"
proof (induction k arbitrary: bs bs' c s)
  case 0
  then show ?case by simp
next
  case (Suc k)
  obtain bs1 c1 s1 where b: "sweep_body p (Suc k) (bs, c, s) = (bs1, c1, s1)"
    by (cases "sweep_body p (Suc k) (bs, c, s)")
  obtain bs1' c1' s1' where b': "sweep_body p (Suc k) (bs', c, s) = (bs1', c1', s1')"
    by (cases "sweep_body p (Suc k) (bs', c, s)")
  from sweep_body_same_motion [OF Suc.prems(1) _ Suc.prems(2), of p c s]
  have rel: "list_all2 same_motion bs1 bs1'" and eq: "c1' = c1" "s1' = s1"
    by (simp_all add: b b')
  have "length bs1 = length bs" using sweep_body_length [of p "Suc k" bs c s] by (simp add: b)
  with Suc.prems(2) have "k < length bs1" by simp
  from Suc.IH [OF rel this, of c1 s1] show ?case by (simp add: b b' eq)
qed

lemma sweep_same_motion:
  assumes "list_all2 same_motion bs bs'"
  shows "list_all2 same_motion (fst (sweep p bs)) (fst (sweep p bs'))
         \<and> snd (sweep p bs) = snd (sweep p bs')"
proof (cases bs)
  case Nil
  with assms show ?thesis by (simp add: sweep_def)
next
  case (Cons b bs0)
  from assms have len: "length bs' = length bs" by (simp add: list_all2_lengthD)
  from Cons have "length bs - 1 < length bs" by simp
  from sweep_loop_same_motion [OF assms this, of p False 0] show ?thesis
    by (simp add: sweep_def len)
qed

lemma resolve_loop_same_motion:
  "list_all2 same_motion bs bs' \<Longrightarrow>
   list_all2 same_motion (fst (resolve_loop p n bs)) (fst (resolve_loop p n bs'))
   \<and> snd (resolve_loop p n bs) = snd (resolve_loop p n bs')"
proof (induction n arbitrary: bs bs')
  case 0
  then show ?case by simp
next
  case (Suc n)
  obtain bs1 c s where sw: "sweep p bs = (bs1, c, s)" by (cases "sweep p bs")
  obtain bs1' c' s' where sw': "sweep p bs' = (bs1', c', s')" by (cases "sweep p bs'")
  from sweep_same_motion [OF Suc.prems, of p]
  have rel: "list_all2 same_motion bs1 bs1'" and eq: "c' = c" "s' = s"
    by (simp_all add: sw sw')
  show ?case
  proof (cases c)
    case False
    with rel show ?thesis by (simp add: sw sw' eq)
  next
    case True
    obtain bs2 tr where r: "resolve_loop p n bs1 = (bs2, tr)" by (cases "resolve_loop p n bs1")
    obtain bs2' tr' where r': "resolve_loop p n bs1' = (bs2', tr')"
      by (cases "resolve_loop p n bs1'")
    from Suc.IH [OF rel] have "list_all2 same_motion bs2 bs2'" "tr' = tr"
      by (simp_all add: r r')
    with True show ?thesis by (simp add: sw sw' eq r r')
  qed
qed

lemma resolve_collisions_same_motion:
  "list_all2 same_motion bs bs' \<Longrightarrow>
   list_all2 same_motion (resolve_collisions p bs) (resolve_collisions p bs')"
  by (simp add: resolve_collisions_def resolve_loop_same_motion)

lemma update_all_same_motion:
  "list_all2 same_motion bs bs' \<Longrightarrow>
   rel_sum (=) (list_all2 same_motion) (update_all p dt bs) (update_all p dt bs')"
proof (induction bs bs' rule: list_all2_induct)
  case Nil
  show ?case by simp
next
  case (Cons b bs b' bs')
  from update_same_motion [OF Cons.hyps(1), of p dt] Cons.IH show ?case
    by (auto simp add: rel_sum.simps)
qed

lemma do_call_same_motion:
  assumes "list_all2 same_motion bs bs'"
  shows "rel_sum (=) (list_all2 same_motion) (do_call p c bs) (do_call p c bs')"
proof (cases c)
  case (Integrate i dt)
  from assms have len: "length bs' = length bs" by (simp add: list_all2_lengthD)
  show ?thesis
  proof (cases "i < length bs")
    case True
    with assms have "same_motion (bs ! i) (bs' ! i)" by (simp add: list_all2_nthD)
    from update_same_motion [OF this, of p dt] assms show ?thesis
      by (auto simp add: do_call_def Integrate len True rel_sum.simps
            intro: list_all2_update_cong)
  next
    case False
    then show ?thesis by (simp add: do_call_def Integrate len)
  qed
next
  case (IntegrateAll dt)
  with assms show ?thesis by (simp add: do_call_def update_all_same_motion)
next
  case Resolve
  with assms show ?thesis by (simp add: do_call_def resolve_collisions_same_motion)
qed

lemma run_same_motion:
  "list_all2 same_motion balls balls' \<Longrightarrow>
   rel_sum (=) (list_all2 same_motion) (run p calls balls) (run p calls balls')"
proof (induction calls arbitrary: balls balls')
  case Nil
  then show ?case by simp
next
  case (Cons c calls)
  have rel: "rel_sum (=) (list_all2 same_motion) (do_call p c balls) (do_call p c balls')"
    using Cons.prems by (rule do_call_same_motion)
  show ?case
  proof (cases "do_call p c balls")
    case (Inl e)
    with rel show ?thesis by (cases "do_call p c balls'") simp_all
  next
    case (Inr bs)
    with rel obtain bs' where bs': "do_call p c balls' = Inr bs'"
      and r: "list_all2 same_motion bs bs'"
      by (cases "do_call p c balls'") simp_all
    from Cons.IH [OF r] show ?thesis by (simp add: Inr bs')
  qed
qed

lemma same_motion_maps:
  "list_all2 same_motion bs bs' \<longleftrightarrow>
     map angle bs = map angle bs'
     \<and> map angular_velocity bs = map angular_velocity bs'
     \<and> map pivot bs = map pivot bs'"
proof (induction bs arbitrary: bs')
  case Nil
  show ?case by auto
next
  case (Cons b bs)
  show ?case
  proof (cases bs')
    case Nil
    then show ?thesis by simp
  next
    case (Cons b' bs0)
    have "list_all2 same_motion (b # bs) bs' \<longleftrightarrow>
            same_motion b b' \<and> list_all2 same_motion bs bs0"
      by (simp add: Cons)
    also have "\<dots> \<longleftrightarrow> same_motion b b'
            \<and> map angle bs = map angle bs0
            \<and> map angular_velocity bs = map angular_velocity bs0
            \<and> map pivot bs = map pivot bs0"
      by (simp only: Cons.IH)
    finally have e: "list_all2 same_motion (b # bs) bs' \<longleftrightarrow> same_motion b b'
            \<and> map angle bs = map angle bs0
            \<and> map angular_velocity bs = map angular_velocity bs0
            \<and> map pivot bs = map pivot bs0" .
    show ?thesis unfolding e by (auto simp add: Cons same_motion_def)
  qed
qed

text \<open>
  C7: two chains that agree in every ball's angle, angular velocity and pivot, whatever
  their masses, give the same result under any sequence of calls run with the same
  parameters and the same time steps: either both runs raise the same exception, or both
  return, with the same angles, angular velocities and pivots.
\<close>

theorem mass_independence:
  assumes "map angle balls = map angle balls'"
    and "map angular_velocity balls = map angular_velocity balls'"
    and "map pivot balls = map pivot balls'"
  shows "case run p calls balls of
           Inl e \<Rightarrow> run p calls balls' = Inl e
         | Inr r \<Rightarrow>
             (\<exists>r'. run p calls balls' = Inr r'
                \<and> map angle r = map angle r'
                \<and> map angular_velocity r = map angular_velocity r'
                \<and> map pivot r = map pivot r')"
proof -
  from assms have "list_all2 same_motion balls balls'" by (simp add: same_motion_maps)
  then have rel: "rel_sum (=) (list_all2 same_motion) (run p calls balls) (run p calls balls')"
    by (rule run_same_motion)
  show ?thesis
  proof (cases "run p calls balls")
    case (Inl e)
    with rel show ?thesis by (cases "run p calls balls'") simp_all
  next
    case (Inr r)
    with rel obtain r' where r': "run p calls balls' = Inr r'"
      and "list_all2 same_motion r r'"
      by (cases "run p calls balls'") simp_all
    then show ?thesis by (simp add: Inr same_motion_maps)
  qed
qed

theorem mass_independence_witness:
  "map angle [Ball_init 1 0 (100, 100), (Ball_init 1 0 (140, 100))\<lparr>angular_velocity := - 1 / 10\<rparr>]
     = map angle [Ball_init 2 0 (100, 100), (Ball_init 3 0 (140, 100))\<lparr>angular_velocity := - 1 / 10\<rparr>]
   \<and> (case run SimulationParams [IntegrateAll (1 / 60), Resolve]
            [Ball_init 1 0 (100, 100), (Ball_init 1 0 (140, 100))\<lparr>angular_velocity := - 1 / 10\<rparr>] of
         Inl e \<Rightarrow>
           run SimulationParams [IntegrateAll (1 / 60), Resolve]
             [Ball_init 2 0 (100, 100), (Ball_init 3 0 (140, 100))\<lparr>angular_velocity := - 1 / 10\<rparr>]
           = Inl e
       | Inr r \<Rightarrow>
           (\<exists>r'. run SimulationParams [IntegrateAll (1 / 60), Resolve]
                   [Ball_init 2 0 (100, 100),
                    (Ball_init 3 0 (140, 100))\<lparr>angular_velocity := - 1 / 10\<rparr>] = Inr r'
              \<and> map angle r = map angle r'
              \<and> map angular_velocity r = map angular_velocity r'
              \<and> map pivot r = map pivot r'))"
proof -
  let ?bs = "[Ball_init 1 0 (100, 100), (Ball_init 1 0 (140, 100))\<lparr>angular_velocity := - 1 / 10\<rparr>]"
  let ?bs' = "[Ball_init 2 0 (100, 100), (Ball_init 3 0 (140, 100))\<lparr>angular_velocity := - 1 / 10\<rparr>]"
  have a: "map angle ?bs = map angle ?bs'" by (simp add: Ball_init_def)
  have v: "map angular_velocity ?bs = map angular_velocity ?bs'" by (simp add: Ball_init_def)
  have q: "map pivot ?bs = map pivot ?bs'" by (simp add: Ball_init_def)
  from mass_independence [OF a v q, of SimulationParams "[IntegrateAll (1 / 60), Resolve]"] a
  show ?thesis by (rule conjI [rotated])
qed

subsection \<open>Energy of one pendulum without damping\<close>





















end
